theory Spec2Isabelle
  imports Main
begin

section \<open>Data model of dn.go\<close>

text \<open>
  The three structs of the package. Go strings are byte sequences and the parser reads
  them byte by byte (\<open>str[i]\<close>), so a string is a \<open>char list\<close> here. The slices of
  pointers are lists of values: every pointer is appended once and replaced by a fresh
  object right after, so no two slots alias.
\<close>

record AttributeTypeAndValue =
  Type :: string
  Value :: string

record RelativeDN =
  Attributes :: "AttributeTypeAndValue list"

record DN =
  RDNs :: "RelativeDN list"

text \<open>
  The errors ParseDN builds, one constructor per message:
  \<^item> \<open>ErrCorruptedEscape\<close>: "Got corrupted escaped character" (line 107);
  \<^item> \<open>ErrDecodeEscape\<close>: "Failed to decode escaped character: ..." (line 113);
  \<^item> \<open>ErrEscapeLength\<close>: "Expected 1 byte when un-escaping, got ..." (line 115);
  \<^item> \<open>ErrDecodeBER\<close>: "Failed to decode BER encoding: ..." (line 138);
  \<^item> \<open>ErrIncomplete\<close>: "DN ended with incomplete type, value pair" (line 170).
  A call of ParseDN either returns a DN, returns one of these errors, or does not return
  at all because a run-time panic unwinds it (a slice bound out of range, a nil packet).
\<close>

datatype error =
  ErrCorruptedEscape | ErrDecodeEscape | ErrEscapeLength | ErrDecodeBER | ErrIncomplete

datatype result = Ok DN | Error error | Panic

text \<open>The local variables of ParseDN that live across loop iterations.\<close>

record locals =
  dn :: DN
  rdn :: RelativeDN
  buffer :: string
  attribute :: AttributeTypeAndValue
  escaping :: bool
  unescapedTrailingSpaces :: nat

definition initial :: locals where
  "initial = \<lparr>dn = \<lparr>RDNs = []\<rparr>, rdn = \<lparr>Attributes = []\<rparr>, buffer = [],
     attribute = \<lparr>Type = [], Value = []\<rparr>, escaping = False,
     unescapedTrailingSpaces = 0\<rparr>"

section \<open>Library functions the parser calls\<close>

text \<open>
  Modelled from the spec: \<open>encoding/hex\<close> of the Go standard library is not among the
  sources. A hex string decodes when its length is even and every character is one of
  \<open>0-9 a-f A-F\<close>; each pair of digits gives one byte. The decoder's error values only
  end up inside the message text, so a failure is \<open>None\<close>. \<open>Decode\<close> (line 111, on
  the two bytes \<open>str[i:i+2]\<close>) and \<open>DecodeString\<close> (line 136) decode alike; the
  number of bytes \<open>Decode\<close> reports is the length of the result.
\<close>

definition fromHexChar :: "char \<Rightarrow> nat option" where
  "fromHexChar c =
     (let n = (of_char c :: nat) in
      if 48 \<le> n \<and> n \<le> 57 then Some (n - 48)
      else if 97 \<le> n \<and> n \<le> 102 then Some (n - 87)
      else if 65 \<le> n \<and> n \<le> 70 then Some (n - 55)
      else None)"

fun DecodeString :: "string \<Rightarrow> string option" where
  "DecodeString [] = Some []"
| "DecodeString [a] = None"
| "DecodeString (a # b # cs) =
     (case fromHexChar a of
        None \<Rightarrow> None
      | Some hi \<Rightarrow>
         (case fromHexChar b of
            None \<Rightarrow> None
          | Some lo \<Rightarrow>
             (case DecodeString cs of
                None \<Rightarrow> None
              | Some bs \<Rightarrow> Some (char_of (16 * hi + lo) # bs))))"

text \<open>
  \<open>strings.IndexAny(s, ",+")\<close>: the index of the first byte of \<open>s\<close> that is one of
  the given characters, \<open>-1\<close> when there is none. Both characters are ASCII, so the
  index counts bytes.
\<close>

fun IndexAny :: "string \<Rightarrow> string \<Rightarrow> int" where
  "IndexAny [] chars = - 1"
| "IndexAny (c # cs) chars =
     (if c \<in> set chars then 0
      else (let r = IndexAny cs chars in if r < 0 then - 1 else r + 1))"

text \<open>
  Modelled from the spec: the BER decoder (\<open>gopkg.in/asn1-ber.v1\<close>) is not among the
  sources. \<open>ber.DecodePacket\<close> has a single result, the packet. The parser takes the
  decoder as a parameter that maps the raw bytes to the text \<open>packet.Data.String()\<close>,
  and to \<open>None\<close> when the decoder rejects the bytes and hands back no packet; the
  field access of line 141 then panics.
\<close>

type_synonym decoder = "string \<Rightarrow> string option"

section \<open>ParseDN\<close>

text \<open>
  The closure \<open>stringFromBuffer\<close> (lines 87-93): the buffer without its last
  \<open>unescapedTrailingSpaces\<close> bytes; it empties the buffer and resets the counter. The
  slice expression panics when the counter exceeds the buffer's length.
\<close>

definition stringFromBuffer :: "locals \<Rightarrow> (string \<times> locals) option" where
  "stringFromBuffer st =
     (if unescapedTrailingSpaces st > length (buffer st) then None
      else Some (take (length (buffer st) - unescapedTrailingSpaces st) (buffer st),
                 st\<lparr>buffer := [], unescapedTrailingSpaces := 0\<rparr>))"

text \<open>The characters of the \<open>case\<close> of line 101.\<close>

definition special :: "char \<Rightarrow> bool" where
  "special c \<longleftrightarrow> c \<in> {CHR '' '', CHR 0x22, CHR ''#'', CHR ''+'', CHR '','', CHR '';'',
     CHR ''<'', CHR ''='', CHR ''>'', CHR 0x5C}"

text \<open>
  The text handed to the hex decoder in the \<open>#\<close> fast path (lines 129-135), where
  \<open>s\<close> is \<open>str[i:]\<close> after \<open>i += 2\<close>: up to the first \<open>,\<close> or \<open>+\<close> when that
  one is at an index above 0, the whole rest otherwise.
\<close>

definition berData :: "string \<Rightarrow> string" where
  "berData s =
     (let index = IndexAny s '',+'' in
      if index > 0 then take (nat index) s else s)"

text \<open>
  One iteration of the loop of lines 95-167 at \<open>char = c\<close>, with \<open>rest\<close> the input
  after \<open>c\<close>: either the function returns (\<open>Return\<close>), or the loop goes on with new
  locals at a later position (\<open>Continue\<close>, with the input that is left after the
  iteration's \<open>i++\<close>).
\<close>

datatype outcome = Continue locals string | Return result

definition step :: "decoder \<Rightarrow> locals \<Rightarrow> char \<Rightarrow> string \<Rightarrow> outcome" where
  "step DecodePacket st c rest =
     (if escaping st then
        (let st1 = st\<lparr>unescapedTrailingSpaces := 0, escaping := False\<rparr> in
         if special c then Continue (st1\<lparr>buffer := buffer st1 @ [c]\<rparr>) rest
         else if rest = [] then Return (Error ErrCorruptedEscape)
         else
           (case DecodeString [c, hd rest] of
              None \<Rightarrow> Return (Error ErrDecodeEscape)
            | Some dst \<Rightarrow>
                if length dst \<noteq> 1 then Return (Error ErrEscapeLength)
                else Continue (st1\<lparr>buffer := buffer st1 @ [hd dst]\<rparr>) (tl rest)))
      else if c = CHR 0x5C then
        Continue (st\<lparr>unescapedTrailingSpaces := 0, escaping := True\<rparr>) rest
      else if c = CHR ''='' then
        (case stringFromBuffer st of
           None \<Rightarrow> Return Panic
         | Some (s, st1) \<Rightarrow>
            (let st2 = st1\<lparr>attribute := (attribute st1)\<lparr>Type := s\<rparr>\<rparr> in
             if rest \<noteq> [] \<and> hd rest = CHR ''#'' then
               (let data = berData (tl rest) in
                case DecodeString data of
                  None \<Rightarrow> Return (Error ErrDecodeBER)
                | Some rawBER \<Rightarrow>
                   (case DecodePacket rawBER of
                      None \<Rightarrow> Return Panic
                    | Some text \<Rightarrow>
                        Continue (st2\<lparr>buffer := buffer st2 @ text\<rparr>)
                          (drop (length data) (tl rest))))
             else Continue st2 rest))
      else if c = CHR '','' \<or> c = CHR ''+'' then
        (case stringFromBuffer st of
           None \<Rightarrow> Return Panic
         | Some (s, st1) \<Rightarrow>
            (let st2 = st1\<lparr>rdn := \<lparr>Attributes =
                          Attributes (rdn st1) @ [(attribute st1)\<lparr>Value := s\<rparr>]\<rparr>,
                        attribute := \<lparr>Type = [], Value = []\<rparr>\<rparr> in
             if c = CHR '','' then
               Continue (st2\<lparr>dn := \<lparr>RDNs = RDNs (dn st2) @ [rdn st2]\<rparr>,
                             rdn := \<lparr>Attributes = []\<rparr>\<rparr>) rest
             else Continue st2 rest))
      else if c = CHR '' '' \<and> buffer st = [] then Continue st rest
      else
        Continue (st\<lparr>unescapedTrailingSpaces :=
                       (if c = CHR '' '' then unescapedTrailingSpaces st + 1 else 0),
                     buffer := buffer st @ [c]\<rparr>) rest)"

text \<open>
  The loop from position \<open>i\<close> on, \<open>cs\<close> being \<open>str[i:]\<close>: the locals at the loop's
  exit (\<open>Inl\<close>), or what an iteration returned (\<open>Inr\<close>). Every iteration moves to a
  later position, so the loop ends.
\<close>

function loop :: "decoder \<Rightarrow> locals \<Rightarrow> string \<Rightarrow> locals + result" where
  "loop DecodePacket st [] = Inl st"
| "loop DecodePacket st (c # rest) =
     (case step DecodePacket st c rest of
        Return r \<Rightarrow> Inr r
      | Continue st' rest' \<Rightarrow> loop DecodePacket st' rest')"
  by pat_completeness auto
termination
  by (relation "measure (\<lambda>(d, st, cs). length cs)")
    (auto simp: step_def Let_def split: if_splits option.splits prod.splits)

text \<open>Lines 168-176, after the loop.\<close>

definition finish :: "locals \<Rightarrow> result" where
  "finish st =
     (if length (buffer st) > 0 then
        (if length (Type (attribute st)) = 0 then Error ErrIncomplete
         else
           (case stringFromBuffer st of
              None \<Rightarrow> Panic
            | Some (s, st1) \<Rightarrow>
                Ok \<lparr>RDNs = RDNs (dn st1) @
                  [\<lparr>Attributes = Attributes (rdn st1) @ [(attribute st1)\<lparr>Value := s\<rparr>]\<rparr>]\<rparr>))
      else Ok (dn st))"

definition ParseDN :: "decoder \<Rightarrow> string \<Rightarrow> result" where
  "ParseDN DecodePacket str =
     (case loop DecodePacket initial str of
        Inr r \<Rightarrow> r
      | Inl st \<Rightarrow> finish st)"

text \<open>
  The first \<open>k\<close> iterations of the loop: the locals and the input left after them, and
  \<open>None\<close> when the loop has ended or returned before.
\<close>

fun iterations :: "decoder \<Rightarrow> nat \<Rightarrow> locals \<Rightarrow> string \<Rightarrow> (locals \<times> string) option" where
  "iterations DecodePacket 0 st cs = Some (st, cs)"
| "iterations DecodePacket (Suc k) st [] = None"
| "iterations DecodePacket (Suc k) st (c # rest) =
     (case step DecodePacket st c rest of
        Return r \<Rightarrow> None
      | Continue st' rest' \<Rightarrow> iterations DecodePacket k st' rest')"

text \<open>
  A decoder that rejects every byte sequence, for statements about one concrete call.
\<close>

definition rejecting :: decoder where
  "rejecting rawBER = None"

text \<open>
  The counter never exceeds the buffer's length: every byte it counts was written to the
  buffer, and both are reset together. So the slice of \<open>stringFromBuffer\<close> is in
  range in every state the loop reaches.
\<close>

definition counted :: "locals \<Rightarrow> bool" where
  "counted st \<longleftrightarrow> unescapedTrailingSpaces st \<le> length (buffer st)"

section \<open>Properties of the scan\<close>

lemmas unfold_ParseDN =
  ParseDN_def initial_def step_def stringFromBuffer_def special_def finish_def
  berData_def fromHexChar_def Let_def

lemma iterations_loop:
  "iterations d k st cs = Some (st', cs') \<Longrightarrow> loop d st cs = loop d st' cs'"
proof (induction k arbitrary: st cs)
  case 0
  then show ?case by simp
next
  case (Suc k)
  then show ?case
    by (cases cs) (auto split: outcome.splits)
qed

lemma iterations_Suc:
  "iterations d k st cs = Some (st', c # rest) \<Longrightarrow> step d st' c rest = Continue st'' rest'' \<Longrightarrow>
   iterations d (Suc k) st cs = Some (st'', rest'')"
proof (induction k arbitrary: st cs)
  case 0
  then show ?case by simp
next
  case (Suc k)
  then show ?case
    by (cases cs) (auto split: outcome.splits)
qed

lemma step_counted:
  "step d st c rest = Continue st' rest' \<Longrightarrow> counted st \<Longrightarrow> counted st'"
  by (auto simp: step_def counted_def stringFromBuffer_def Let_def
           split: if_splits option.splits prod.splits)

lemma iterations_counted:
  "iterations d k st cs = Some (st', cs') \<Longrightarrow> counted st \<Longrightarrow> counted st'"
proof (induction k arbitrary: st cs)
  case 0
  then show ?case by simp
next
  case (Suc k)
  then show ?case
    by (cases cs) (auto split: outcome.splits dest: step_counted)
qed

lemma counted_initial: "counted initial"
  by (simp add: counted_def initial_def)

lemma step_backslash:
  "\<not> escaping st \<Longrightarrow>
   step d st (CHR 0x5C) rest =
     Continue (st\<lparr>unescapedTrailingSpaces := 0, escaping := True\<rparr>) rest"
  by (simp add: step_def)

lemma step_escaped_malformed:
  "escaping st \<Longrightarrow> \<not> special c \<Longrightarrow> rest = [] \<or> DecodeString [c, hd rest] = None \<Longrightarrow>
   step d st c rest =
     Return (Error (if rest = [] then ErrCorruptedEscape else ErrDecodeEscape))"
  by (auto simp: step_def Let_def)

lemma step_ber_hex:
  "\<not> escaping st \<Longrightarrow> counted st \<Longrightarrow> DecodeString (berData s) = None \<Longrightarrow>
   step d st (CHR ''='') (CHR ''#'' # s) = Return (Error ErrDecodeBER)"
  by (simp add: step_def counted_def stringFromBuffer_def Let_def)

lemma step_equals:
  "\<not> escaping st \<Longrightarrow> counted st \<Longrightarrow> rest = [] \<or> hd rest \<noteq> CHR ''#'' \<Longrightarrow>
   step d st (CHR ''='') rest =
     Continue (st\<lparr>buffer := [], unescapedTrailingSpaces := 0,
       attribute := (attribute st)\<lparr>Type :=
         take (length (buffer st) - unescapedTrailingSpaces st) (buffer st)\<rparr>\<rparr>) rest"
  by (auto simp: step_def counted_def stringFromBuffer_def Let_def)

lemma iterations_add:
  "iterations d k st cs = Some (st', cs') \<Longrightarrow> iterations d m st' cs' = Some (st'', cs'') \<Longrightarrow>
   iterations d (k + m) st cs = Some (st'', cs'')"
proof (induction k arbitrary: st cs)
  case 0
  then show ?case by simp
next
  case (Suc k)
  then show ?case
    by (cases cs) (auto split: outcome.splits)
qed

lemma iterations_spaces:
  "\<not> escaping st \<Longrightarrow> buffer st \<noteq> [] \<Longrightarrow>
   iterations d n st (replicate n (CHR '' '') @ rest) =
   Some (st\<lparr>unescapedTrailingSpaces := unescapedTrailingSpaces st + n,
              buffer := buffer st @ replicate n (CHR '' '')\<rparr>, rest)"
proof (induction n arbitrary: st)
  case 0
  then show ?case by simp
next
  case (Suc n)
  let ?st = "st\<lparr>unescapedTrailingSpaces := unescapedTrailingSpaces st + 1,
                  buffer := buffer st @ [CHR '' '']\<rparr>"
  have "step d st (CHR '' '') (replicate n (CHR '' '') @ rest) =
      Continue ?st (replicate n (CHR '' '') @ rest)"
    using Suc.prems by (simp add: step_def)
  then have "iterations d (Suc n) st (replicate (Suc n) (CHR '' '') @ rest) =
      iterations d n ?st (replicate n (CHR '' '') @ rest)"
    by simp
  also have "\<dots> = Some (?st\<lparr>unescapedTrailingSpaces := unescapedTrailingSpaces ?st + n,
              buffer := buffer ?st @ replicate n (CHR '' '')\<rparr>, rest)"
    using Suc.prems by (intro Suc.IH) simp_all
  finally show ?case by simp
qed

lemma step_plus:
  "\<not> escaping st \<Longrightarrow> counted st \<Longrightarrow>
   step d st (CHR ''+'') rest =
     Continue (st\<lparr>rdn := \<lparr>Attributes = Attributes (rdn st) @
         [(attribute st)\<lparr>Value :=
            take (length (buffer st) - unescapedTrailingSpaces st) (buffer st)\<rparr>]\<rparr>,
       buffer := [], attribute := \<lparr>Type = [], Value = []\<rparr>,
       unescapedTrailingSpaces := 0\<rparr>) rest"
  by (simp add: step_def counted_def stringFromBuffer_def Let_def)

lemma step_comma:
  "\<not> escaping st \<Longrightarrow> counted st \<Longrightarrow>
   step d st (CHR '','') rest =
     Continue (st\<lparr>dn := \<lparr>RDNs = RDNs (dn st) @ [\<lparr>Attributes = Attributes (rdn st) @
         [(attribute st)\<lparr>Value :=
            take (length (buffer st) - unescapedTrailingSpaces st) (buffer st)\<rparr>]\<rparr>]\<rparr>,
       rdn := \<lparr>Attributes = []\<rparr>,
       buffer := [], attribute := \<lparr>Type = [], Value = []\<rparr>,
       unescapedTrailingSpaces := 0\<rparr>) rest"
  by (simp add: step_def counted_def stringFromBuffer_def Let_def)

lemma finish_pending:
  "counted st \<Longrightarrow> buffer st \<noteq> [] \<Longrightarrow>
   finish st =
     (if Type (attribute st) = [] then Error ErrIncomplete
      else Ok \<lparr>RDNs = RDNs (dn st) @ [\<lparr>Attributes = Attributes (rdn st) @
         [(attribute st)\<lparr>Value :=
            take (length (buffer st) - unescapedTrailingSpaces st) (buffer st)\<rparr>]\<rparr>]\<rparr>)"
  by (simp add: finish_def counted_def stringFromBuffer_def)

lemma step_escaped_special:
  "escaping st \<Longrightarrow> special c \<Longrightarrow>
   step d st c rest =
     Continue (st\<lparr>buffer := buffer st @ [c], escaping := False,
       unescapedTrailingSpaces := 0\<rparr>) rest"
  by (simp add: step_def Let_def)

lemma hex_not_special: "fromHexChar c = Some v \<Longrightarrow> \<not> special c"
  by (auto simp: special_def fromHexChar_def)

lemma step_escaped_hex:
  "escaping st \<Longrightarrow> fromHexChar a = Some hi \<Longrightarrow> fromHexChar b = Some lo \<Longrightarrow>
   step d st a (b # rest) =
     Continue (st\<lparr>buffer := buffer st @ [char_of (16 * hi + lo)], escaping := False,
       unescapedTrailingSpaces := 0\<rparr>) rest"
  using hex_not_special [of a hi] by (simp add: step_def Let_def)

lemma step_ber_rejected:
  "\<not> escaping st \<Longrightarrow> counted st \<Longrightarrow> DecodeString (berData s) = Some rawBER \<Longrightarrow>
   d rawBER = None \<Longrightarrow>
   step d st (CHR ''='') (CHR ''#'' # s) = Return Panic"
  by (simp add: step_def counted_def stringFromBuffer_def Let_def)

subsection \<open>Malformed escapes\<close>

text \<open>
  C1, as the code has it. Whenever the scan meets an unescaped backslash followed by a
  character \<open>c\<close> that is none of the special characters, and \<open>c\<close> is the last
  character of the input or \<open>c\<close> and the character after it are not two hexadecimal
  digits, ParseDN returns an error and no DN: "Got corrupted escaped character" when
  \<open>c\<close> is the last character, "Failed to decode escaped character" otherwise.
\<close>

theorem malformed_escape_is_fatal:
  assumes "iterations d k initial str = Some (st, CHR 0x5C # c # rest)"
    and "\<not> escaping st"
    and "\<not> special c"
    and "rest = [] \<or> DecodeString [c, hd rest] = None"
  shows "ParseDN d str = Error (if rest = [] then ErrCorruptedEscape else ErrDecodeEscape)"
proof -
  let ?st = "st\<lparr>unescapedTrailingSpaces := 0, escaping := True\<rparr>"
  have "loop d initial str = loop d st (CHR 0x5C # c # rest)"
    using assms(1) by (rule iterations_loop)
  also have "\<dots> = loop d ?st (c # rest)"
    using assms(2) by (simp add: step_backslash)
  also have "\<dots> = Inr (Error (if rest = [] then ErrCorruptedEscape else ErrDecodeEscape))"
    using step_escaped_malformed [of ?st c rest d] assms(3,4) by simp
  finally show ?thesis by (simp add: ParseDN_def)
qed

theorem malformed_escape_is_fatal_witness:
  "iterations rejecting 3 initial (''CN='' @ [CHR 0x5C] @ ''ZZ'')
     = Some (initial\<lparr>attribute := \<lparr>Type = ''CN'', Value = []\<rparr>\<rparr>,
             CHR 0x5C # CHR ''Z'' # ''Z'')
   \<and> \<not> escaping (initial\<lparr>attribute := \<lparr>Type = ''CN'', Value = []\<rparr>\<rparr>)
   \<and> \<not> special (CHR ''Z'')
   \<and> DecodeString [CHR ''Z'', hd ''Z''] = None
   \<and> ParseDN rejecting (''CN='' @ [CHR 0x5C] @ ''ZZ'') = Error ErrDecodeEscape"
proof -
  let ?st = "initial\<lparr>attribute := \<lparr>Type = ''CN'', Value = []\<rparr>\<rparr>"
  have h1: "iterations rejecting 3 initial (''CN='' @ [CHR 0x5C] @ ''ZZ'')
     = Some (?st, CHR 0x5C # CHR ''Z'' # ''Z'')"
    by (simp add: numeral_3_eq_3 unfold_ParseDN)
  have h2: "\<not> escaping ?st" by (simp add: initial_def)
  have h3: "\<not> special (CHR ''Z'')" by (simp add: special_def)
  have h4: "''Z'' = [] \<or> DecodeString [CHR ''Z'', hd ''Z''] = None"
    by (simp add: fromHexChar_def)
  from malformed_escape_is_fatal [OF h1 h2 h3 h4] h1 h2 h3 h4 show ?thesis by simp
qed

text \<open>
  C1 as stated fails twice. A backslash that is the last character of the input only sets
  the flag \<open>escaping\<close>, which nothing reads after the loop: the DN is returned. And a
  backslash followed by one last character that is no hexadecimal digit gives the
  truncated-escape error of line 107, not the invalid-hex error.
\<close>

theorem malformed_escape_counterexample:
  "ParseDN rejecting (''CN=a'' @ [CHR 0x5C])
     = Ok \<lparr>RDNs = [\<lparr>Attributes = [\<lparr>Type = ''CN'', Value = ''a''\<rparr>]\<rparr>]\<rparr>
   \<and> ParseDN rejecting (''CN=a'' @ [CHR 0x5C] @ ''Z'') = Error ErrCorruptedEscape"
  by (simp add: unfold_ParseDN)

subsection \<open>The BER fast path\<close>

text \<open>
  The hex-decoding half of the fast path: whenever the scan meets an unescaped \<open>=\<close>
  followed by \<open>#\<close> and the text taken for the hex decoder is not a hex string,
  ParseDN returns the error "Failed to decode BER encoding" and no DN.
\<close>

theorem ber_hex_failure_is_fatal:
  assumes "iterations d k initial str = Some (st, CHR ''='' # CHR ''#'' # s)"
    and "\<not> escaping st"
    and "DecodeString (berData s) = None"
  shows "ParseDN d str = Error ErrDecodeBER"
proof -
  have "counted st"
    using assms(1) counted_initial by (rule iterations_counted)
  then have "step d st (CHR ''='') (CHR ''#'' # s) = Return (Error ErrDecodeBER)"
    using assms(2,3) by (simp add: step_ber_hex)
  moreover have "loop d initial str = loop d st (CHR ''='' # CHR ''#'' # s)"
    using assms(1) by (rule iterations_loop)
  ultimately show ?thesis by (simp add: ParseDN_def)
qed

theorem ber_hex_failure_is_fatal_witness:
  "iterations rejecting 1 initial ''1=#0402486''
     = Some (initial\<lparr>buffer := ''1'', unescapedTrailingSpaces := 0\<rparr>, ''=#0402486'')
   \<and> \<not> escaping (initial\<lparr>buffer := ''1'', unescapedTrailingSpaces := 0\<rparr>)
   \<and> DecodeString (berData ''0402486'') = None
   \<and> ParseDN rejecting ''1=#0402486'' = Error ErrDecodeBER"
proof -
  let ?st = "initial\<lparr>buffer := ''1'', unescapedTrailingSpaces := 0\<rparr>"
  have h1: "iterations rejecting 1 initial ''1=#0402486'' = Some (?st, ''=#0402486'')"
    by (simp add: unfold_ParseDN)
  have h2: "\<not> escaping ?st" by (simp add: initial_def)
  have h3: "DecodeString (berData ''0402486'') = None"
    by (simp add: berData_def fromHexChar_def)
  from ber_hex_failure_is_fatal [OF h1 h2 h3] h1 h2 h3 show ?thesis by simp
qed

text \<open>
  C2 at the decoder's half: whenever the scan meets an unescaped \<open>=\<close> followed by
  \<open>#\<close>, the span is a hex string and the decoder rejects the decoded bytes, ParseDN
  returns neither an error nor a DN: the call of line 140 has no error result, the packet
  is used unchecked at line 141, and the call panics. The hex-decoding failure just before
  (lines 136-139) is checked and returned as an error.
\<close>

theorem ber_rejection_panics:
  assumes "iterations d k initial str = Some (st, CHR ''='' # CHR ''#'' # s)"
    and "\<not> escaping st"
    and "DecodeString (berData s) = Some rawBER"
    and "d rawBER = None"
  shows "ParseDN d str = Panic"
proof -
  have "counted st"
    using assms(1) counted_initial by (rule iterations_counted)
  then have "step d st (CHR ''='') (CHR ''#'' # s) = Return Panic"
    using assms(2,3,4) by (simp add: step_ber_rejected)
  moreover have "loop d initial str = loop d st (CHR ''='' # CHR ''#'' # s)"
    using assms(1) by (rule iterations_loop)
  ultimately show ?thesis by (simp add: ParseDN_def)
qed

theorem ber_rejection_panics_witness:
  "iterations rejecting 2 initial ''CN=#00''
     = Some (initial\<lparr>buffer := ''CN'', unescapedTrailingSpaces := 0\<rparr>, ''=#00'')
   \<and> \<not> escaping (initial\<lparr>buffer := ''CN'', unescapedTrailingSpaces := 0\<rparr>)
   \<and> DecodeString (berData ''00'') = Some [CHR 0x00]
   \<and> rejecting [CHR 0x00] = None
   \<and> ParseDN rejecting ''CN=#00'' = Panic"
proof -
  let ?st = "initial\<lparr>buffer := ''CN'', unescapedTrailingSpaces := 0\<rparr>"
  have h1: "iterations rejecting 2 initial ''CN=#00'' = Some (?st, ''=#00'')"
    by (simp add: eval_nat_numeral unfold_ParseDN)
  have h2: "\<not> escaping ?st" by (simp add: initial_def)
  have h3: "DecodeString (berData ''00'') = Some [CHR 0x00]"
    by (simp add: berData_def fromHexChar_def char_of_def)
  have h4: "rejecting [CHR 0x00] = None" by (simp add: rejecting_def)
  from ber_rejection_panics [OF h1 h2 h3 h4] h1 h2 h3 h4 show ?thesis by simp
qed

subsection \<open>Attribute types\<close>

text \<open>
  C3 at the input \<open>a,\<close>: the delimiter branch (lines 144-153) appends the attribute
  without the test of \<open>len(attribute.Type)\<close> that the end of input makes (line 169),
  and ParseDN succeeds with an attribute whose Type is empty.
\<close>

theorem empty_type_at_delimiter:
  "ParseDN d ''a,'' = Ok \<lparr>RDNs = [\<lparr>Attributes = [\<lparr>Type = [], Value = ''a''\<rparr>]\<rparr>]\<rparr>"
  by (simp add: unfold_ParseDN)

text \<open>
  C4, as the code has it: \<open>CN\<close> fails with "DN ended with incomplete type, value
  pair"; \<open>CN=\<close> succeeds with a DN that has no RelativeDN, since the buffer is empty
  at the end of the input and the pending attribute is not appended.
\<close>

theorem incomplete_pair:
  "ParseDN d ''CN'' = Error ErrIncomplete \<and> ParseDN d ''CN='' = Ok \<lparr>RDNs = []\<rparr>"
  by (simp add: unfold_ParseDN)

text \<open>C4 as stated fails: \<open>CN=\<close> yields no attribute at all.\<close>

theorem incomplete_pair_counterexample:
  "ParseDN rejecting ''CN='' = Ok \<lparr>RDNs = []\<rparr>"
  by (simp add: unfold_ParseDN)

subsection \<open>Worked inputs\<close>

text \<open>
  C5: \<open>CN=James,OU=Engineering,DC=example,DC=com\<close> parses to four RelativeDNs in the
  order of the input, each with one attribute, the first being (CN, James).
\<close>

theorem four_rdns_in_order:
  "ParseDN d ''CN=James,OU=Engineering,DC=example,DC=com'' =
     Ok \<lparr>RDNs =
       [\<lparr>Attributes = [\<lparr>Type = ''CN'', Value = ''James''\<rparr>]\<rparr>,
        \<lparr>Attributes = [\<lparr>Type = ''OU'', Value = ''Engineering''\<rparr>]\<rparr>,
        \<lparr>Attributes = [\<lparr>Type = ''DC'', Value = ''example''\<rparr>]\<rparr>,
        \<lparr>Attributes = [\<lparr>Type = ''DC'', Value = ''com''\<rparr>]\<rparr>]\<rparr>"
  by (simp add: unfold_ParseDN)

text \<open>
  C6: unescaped trailing spaces are stripped from a finalized value, an escaped trailing
  space is kept. Let the scan reach, outside an escape and with a non-empty buffer, a run
  of \<open>n\<close> spaces. After the run the counter has grown by \<open>n\<close>, and each of the three
  places that finalize the buffer (\<open>+\<close>, \<open>,\<close> and the end of the input) yields the
  value \<open>v\<close> that the buffer would have given before the run. When a backslash and a
  space follow the run instead, the counter is reset, and each of the three places yields
  the whole buffer \<open>w\<close>: the old buffer, the \<open>n\<close> spaces and the escaped space. So
  \<open>CN=James\<close> followed by three spaces has the value \<open>James\<close>, and \<open>CN=James\<close>
  followed by a backslash and a space has the value \<open>James\<close> with the space.
\<close>

theorem trailing_spaces:
  assumes "iterations d k initial str = Some (st, replicate n (CHR '' '') @ tail)"
    and "\<not> escaping st"
    and "buffer st \<noteq> []"
  shows "let v = take (length (buffer st) - unescapedTrailingSpaces st) (buffer st);
             w = buffer st @ replicate n (CHR '' '') @ '' '';
             stn = st\<lparr>unescapedTrailingSpaces := unescapedTrailingSpaces st + n,
                     buffer := buffer st @ replicate n (CHR '' '')\<rparr>;
             esc = stn\<lparr>unescapedTrailingSpaces := 0, escaping := True\<rparr>;
             ste = st\<lparr>buffer := w, escaping := False, unescapedTrailingSpaces := 0\<rparr>
         in iterations d (k + n) initial str = Some (stn, tail)
          \<and> step d stn (CHR ''+'') rest =
              Continue (st\<lparr>rdn := \<lparr>Attributes =
                  Attributes (rdn st) @ [(attribute st)\<lparr>Value := v\<rparr>]\<rparr>,
                buffer := [], attribute := \<lparr>Type = [], Value = []\<rparr>,
                unescapedTrailingSpaces := 0\<rparr>) rest
          \<and> step d stn (CHR '','') rest =
              Continue (st\<lparr>dn := \<lparr>RDNs = RDNs (dn st) @ [\<lparr>Attributes =
                  Attributes (rdn st) @ [(attribute st)\<lparr>Value := v\<rparr>]\<rparr>]\<rparr>,
                rdn := \<lparr>Attributes = []\<rparr>,
                buffer := [], attribute := \<lparr>Type = [], Value = []\<rparr>,
                unescapedTrailingSpaces := 0\<rparr>) rest
          \<and> finish stn =
              (if Type (attribute st) = [] then Error ErrIncomplete
               else Ok \<lparr>RDNs = RDNs (dn st) @ [\<lparr>Attributes =
                  Attributes (rdn st) @ [(attribute st)\<lparr>Value := v\<rparr>]\<rparr>]\<rparr>)
          \<and> step d stn (CHR 0x5C) (CHR '' '' # rest) = Continue esc (CHR '' '' # rest)
          \<and> step d esc (CHR '' '') rest = Continue ste rest
          \<and> step d ste (CHR ''+'') rest =
              Continue (st\<lparr>rdn := \<lparr>Attributes =
                  Attributes (rdn st) @ [(attribute st)\<lparr>Value := w\<rparr>]\<rparr>,
                buffer := [], attribute := \<lparr>Type = [], Value = []\<rparr>,
                escaping := False, unescapedTrailingSpaces := 0\<rparr>) rest
          \<and> step d ste (CHR '','') rest =
              Continue (st\<lparr>dn := \<lparr>RDNs = RDNs (dn st) @ [\<lparr>Attributes =
                  Attributes (rdn st) @ [(attribute st)\<lparr>Value := w\<rparr>]\<rparr>]\<rparr>,
                rdn := \<lparr>Attributes = []\<rparr>,
                buffer := [], attribute := \<lparr>Type = [], Value = []\<rparr>,
                escaping := False, unescapedTrailingSpaces := 0\<rparr>) rest
          \<and> finish ste =
              (if Type (attribute st) = [] then Error ErrIncomplete
               else Ok \<lparr>RDNs = RDNs (dn st) @ [\<lparr>Attributes =
                  Attributes (rdn st) @ [(attribute st)\<lparr>Value := w\<rparr>]\<rparr>]\<rparr>)
          \<and> ParseDN d ''CN=James   '' =
              Ok \<lparr>RDNs = [\<lparr>Attributes = [\<lparr>Type = ''CN'', Value = ''James''\<rparr>]\<rparr>]\<rparr>
          \<and> ParseDN d (''CN=James'' @ [CHR 0x5C, CHR '' '']) =
              Ok \<lparr>RDNs = [\<lparr>Attributes = [\<lparr>Type = ''CN'', Value = ''James ''\<rparr>]\<rparr>]\<rparr>"
proof -
  let ?sp = "replicate n (CHR '' '')"
  let ?stn = "st\<lparr>unescapedTrailingSpaces := unescapedTrailingSpaces st + n,
                   buffer := buffer st @ ?sp\<rparr>"
  let ?esc = "?stn\<lparr>unescapedTrailingSpaces := 0, escaping := True\<rparr>"
  let ?ste = "st\<lparr>buffer := buffer st @ ?sp @ '' '', escaping := False,
                   unescapedTrailingSpaces := 0\<rparr>"
  have c: "counted st"
    using assms(1) counted_initial by (rule iterations_counted)
  then have cn: "counted ?stn" and ce: "counted ?ste"
    by (simp_all add: counted_def)
  have en: "\<not> escaping ?stn" and ee: "\<not> escaping ?ste" and esc: "escaping ?esc"
    using assms(2) by simp_all
  have bn: "buffer ?stn \<noteq> []" and be: "buffer ?ste \<noteq> []"
    using assms(3) by simp_all
  have v: "take (length (buffer ?stn) - unescapedTrailingSpaces ?stn) (buffer ?stn)
      = take (length (buffer st) - unescapedTrailingSpaces st) (buffer st)"
    using c by (simp add: counted_def)
  have 1: "iterations d (k + n) initial str = Some (?stn, tail)"
    using assms(1) iterations_spaces [OF assms(2,3)] by (rule iterations_add)
  have 2: "step d ?stn (CHR ''+'') rest =
      Continue (st\<lparr>rdn := \<lparr>Attributes = Attributes (rdn st) @ [(attribute st)\<lparr>Value :=
          take (length (buffer st) - unescapedTrailingSpaces st) (buffer st)\<rparr>]\<rparr>,
        buffer := [], attribute := \<lparr>Type = [], Value = []\<rparr>,
        unescapedTrailingSpaces := 0\<rparr>) rest"
    unfolding step_plus [OF en cn] v by simp
  have 3: "step d ?stn (CHR '','') rest =
      Continue (st\<lparr>dn := \<lparr>RDNs = RDNs (dn st) @ [\<lparr>Attributes =
          Attributes (rdn st) @ [(attribute st)\<lparr>Value :=
            take (length (buffer st) - unescapedTrailingSpaces st) (buffer st)\<rparr>]\<rparr>]\<rparr>,
        rdn := \<lparr>Attributes = []\<rparr>,
        buffer := [], attribute := \<lparr>Type = [], Value = []\<rparr>,
        unescapedTrailingSpaces := 0\<rparr>) rest"
    unfolding step_comma [OF en cn] v by simp
  have 4: "finish ?stn =
      (if Type (attribute st) = [] then Error ErrIncomplete
       else Ok \<lparr>RDNs = RDNs (dn st) @ [\<lparr>Attributes =
          Attributes (rdn st) @ [(attribute st)\<lparr>Value :=
            take (length (buffer st) - unescapedTrailingSpaces st) (buffer st)\<rparr>]\<rparr>]\<rparr>)"
    unfolding finish_pending [OF cn bn] v by simp
  have 5: "step d ?stn (CHR 0x5C) (CHR '' '' # rest) = Continue ?esc (CHR '' '' # rest)"
    using en by (rule step_backslash)
  have 6: "step d ?esc (CHR '' '') rest = Continue ?ste rest"
  proof -
    have "special (CHR '' '')" by (simp add: special_def)
    from step_escaped_special [OF esc this, of d rest] show ?thesis by simp
  qed
  have 7: "step d ?ste (CHR ''+'') rest =
      Continue (st\<lparr>rdn := \<lparr>Attributes = Attributes (rdn st) @
          [(attribute st)\<lparr>Value := buffer st @ ?sp @ '' ''\<rparr>]\<rparr>,
        buffer := [], attribute := \<lparr>Type = [], Value = []\<rparr>,
        escaping := False, unescapedTrailingSpaces := 0\<rparr>) rest"
    unfolding step_plus [OF ee ce] by simp
  have 8: "step d ?ste (CHR '','') rest =
      Continue (st\<lparr>dn := \<lparr>RDNs = RDNs (dn st) @ [\<lparr>Attributes =
          Attributes (rdn st) @ [(attribute st)\<lparr>Value := buffer st @ ?sp @ '' ''\<rparr>]\<rparr>]\<rparr>,
        rdn := \<lparr>Attributes = []\<rparr>,
        buffer := [], attribute := \<lparr>Type = [], Value = []\<rparr>,
        escaping := False, unescapedTrailingSpaces := 0\<rparr>) rest"
    unfolding step_comma [OF ee ce] by simp
  have 9: "finish ?ste =
      (if Type (attribute st) = [] then Error ErrIncomplete
       else Ok \<lparr>RDNs = RDNs (dn st) @ [\<lparr>Attributes =
          Attributes (rdn st) @ [(attribute st)\<lparr>Value := buffer st @ ?sp @ '' ''\<rparr>]\<rparr>]\<rparr>)"
    unfolding finish_pending [OF ce be] by simp
  have 10: "ParseDN d ''CN=James   '' =
      Ok \<lparr>RDNs = [\<lparr>Attributes = [\<lparr>Type = ''CN'', Value = ''James''\<rparr>]\<rparr>]\<rparr>"
    by (simp add: unfold_ParseDN)
  have 11: "ParseDN d (''CN=James'' @ [CHR 0x5C, CHR '' '']) =
      Ok \<lparr>RDNs = [\<lparr>Attributes = [\<lparr>Type = ''CN'', Value = ''James ''\<rparr>]\<rparr>]\<rparr>"
    by (simp add: unfold_ParseDN)
  show ?thesis
    unfolding Let_def
    by (intro conjI) (rule 1 2 3 4 5 6 7 8 9 10 11)+
qed

theorem trailing_spaces_witness:
  "iterations rejecting 8 initial ''CN=James   ''
     = Some (initial\<lparr>buffer := ''James'', attribute := \<lparr>Type = ''CN'', Value = []\<rparr>\<rparr>,
             replicate 3 (CHR '' '') @ [])
   \<and> \<not> escaping (initial\<lparr>buffer := ''James'', attribute := \<lparr>Type = ''CN'', Value = []\<rparr>\<rparr>)
   \<and> buffer (initial\<lparr>buffer := ''James'', attribute := \<lparr>Type = ''CN'', Value = []\<rparr>\<rparr>) \<noteq> []
   \<and> iterations rejecting (8 + 3) initial ''CN=James   ''
     = Some (initial\<lparr>buffer := ''James   '', attribute := \<lparr>Type = ''CN'', Value = []\<rparr>,
               unescapedTrailingSpaces := 3\<rparr>, [])
   \<and> finish (initial\<lparr>buffer := ''James   '', attribute := \<lparr>Type = ''CN'', Value = []\<rparr>,
               unescapedTrailingSpaces := 3\<rparr>)
     = Ok \<lparr>RDNs = [\<lparr>Attributes = [\<lparr>Type = ''CN'', Value = ''James''\<rparr>]\<rparr>]\<rparr>
   \<and> step rejecting (initial\<lparr>buffer := ''James   '',
               attribute := \<lparr>Type = ''CN'', Value = []\<rparr>,
               unescapedTrailingSpaces := 3\<rparr>) (CHR '','') []
     = Continue (initial\<lparr>dn := \<lparr>RDNs =
                   [\<lparr>Attributes = [\<lparr>Type = ''CN'', Value = ''James''\<rparr>]\<rparr>]\<rparr>\<rparr>) []"
proof -
  let ?st = "initial\<lparr>buffer := ''James'', attribute := \<lparr>Type = ''CN'', Value = []\<rparr>\<rparr>"
  have h1: "iterations rejecting 8 initial ''CN=James   ''
      = Some (?st, replicate 3 (CHR '' '') @ [])"
    by (simp add: eval_nat_numeral unfold_ParseDN)
  have h2: "\<not> escaping ?st" by (simp add: initial_def)
  have h3: "buffer ?st \<noteq> []" by simp
  have "replicate 3 (CHR '' '') = ''   ''" by (simp add: eval_nat_numeral)
  with trailing_spaces [OF h1 h2 h3, of "[]"] h1 h2 h3 show ?thesis
    by (simp add: Let_def initial_def)
qed

text \<open>
  C7: a hex-pair escape decodes to its byte, and the byte is inert. Whenever the scan
  meets an unescaped backslash followed by two hexadecimal digits, the two iterations
  append the byte \<open>16 * hi + lo\<close> to the buffer and go on after the second digit; the
  DN, the RelativeDN and the attribute under construction are unchanged whatever the byte
  is. So in \<open>CN=James\2C Jr.\<close> the escape \<open>\2C\<close> becomes a comma of the value and does
  not end the RelativeDN: one RelativeDN with the one attribute (CN, "James, Jr.").
\<close>

theorem escaped_comma:
  assumes "iterations d k initial str = Some (st, CHR 0x5C # a # b # rest)"
    and "\<not> escaping st"
    and "fromHexChar a = Some hi"
    and "fromHexChar b = Some lo"
  shows "iterations d (k + 2) initial str =
      Some (st\<lparr>buffer := buffer st @ [char_of (16 * hi + lo)], escaping := False,
        unescapedTrailingSpaces := 0\<rparr>, rest)
    \<and> ParseDN d (''CN=James'' @ [CHR 0x5C] @ ''2C Jr.'') =
      Ok \<lparr>RDNs = [\<lparr>Attributes = [\<lparr>Type = ''CN'', Value = ''James, Jr.''\<rparr>]\<rparr>]\<rparr>"
proof
  let ?esc = "st\<lparr>unescapedTrailingSpaces := 0, escaping := True\<rparr>"
  have "step d st (CHR 0x5C) (a # b # rest) = Continue ?esc (a # b # rest)"
    using assms(2) by (rule step_backslash)
  moreover have "step d ?esc a (b # rest) =
      Continue (?esc\<lparr>buffer := buffer ?esc @ [char_of (16 * hi + lo)], escaping := False,
        unescapedTrailingSpaces := 0\<rparr>) rest"
    using assms(3,4) by (intro step_escaped_hex) simp_all
  ultimately have "iterations d 2 st (CHR 0x5C # a # b # rest) =
      Some (st\<lparr>buffer := buffer st @ [char_of (16 * hi + lo)], escaping := False,
        unescapedTrailingSpaces := 0\<rparr>, rest)"
    by (simp add: numeral_2_eq_2)
  with assms(1) show "iterations d (k + 2) initial str =
      Some (st\<lparr>buffer := buffer st @ [char_of (16 * hi + lo)], escaping := False,
        unescapedTrailingSpaces := 0\<rparr>, rest)"
    by (rule iterations_add)
next
  show "ParseDN d (''CN=James'' @ [CHR 0x5C] @ ''2C Jr.'') =
      Ok \<lparr>RDNs = [\<lparr>Attributes = [\<lparr>Type = ''CN'', Value = ''James, Jr.''\<rparr>]\<rparr>]\<rparr>"
    by (simp add: unfold_ParseDN char_of_def bit_0)
qed

theorem escaped_comma_witness:
  "iterations rejecting 8 initial (''CN=James'' @ [CHR 0x5C] @ ''2C Jr.'')
     = Some (initial\<lparr>buffer := ''James'', attribute := \<lparr>Type = ''CN'', Value = []\<rparr>\<rparr>,
             CHR 0x5C # CHR ''2'' # CHR ''C'' # '' Jr.'')
   \<and> \<not> escaping (initial\<lparr>buffer := ''James'', attribute := \<lparr>Type = ''CN'', Value = []\<rparr>\<rparr>)
   \<and> fromHexChar (CHR ''2'') = Some 2
   \<and> fromHexChar (CHR ''C'') = Some 12
   \<and> iterations rejecting (8 + 2) initial (''CN=James'' @ [CHR 0x5C] @ ''2C Jr.'')
     = Some (initial\<lparr>buffer := ''James,'', attribute := \<lparr>Type = ''CN'', Value = []\<rparr>\<rparr>,
             '' Jr.'')
   \<and> ParseDN rejecting (''CN=James'' @ [CHR 0x5C] @ ''2C Jr.'') =
      Ok \<lparr>RDNs = [\<lparr>Attributes = [\<lparr>Type = ''CN'', Value = ''James, Jr.''\<rparr>]\<rparr>]\<rparr>"
proof -
  let ?st = "initial\<lparr>buffer := ''James'', attribute := \<lparr>Type = ''CN'', Value = []\<rparr>\<rparr>"
  have h1: "iterations rejecting 8 initial (''CN=James'' @ [CHR 0x5C] @ ''2C Jr.'')
      = Some (?st, CHR 0x5C # CHR ''2'' # CHR ''C'' # '' Jr.'')"
    by (simp add: eval_nat_numeral unfold_ParseDN)
  have h2: "\<not> escaping ?st" by (simp add: initial_def)
  have h3: "fromHexChar (CHR ''2'') = Some 2" by (simp add: fromHexChar_def)
  have h4: "fromHexChar (CHR ''C'') = Some 12" by (simp add: fromHexChar_def)
  have byte: "char_of (16 * 2 + 12 :: nat) = CHR '',''" by (simp add: char_of_def bit_0)
  from escaped_comma [OF h1 h2 h3 h4] h1 h2 h3 h4 show ?thesis
    unfolding byte by (simp add: initial_def)
qed

text \<open>
  C8: \<open>+\<close> joins attributes into one RelativeDN without closing it. Whenever the scan
  meets an unescaped \<open>+\<close>, the pending attribute, with the stripped buffer as its
  Value, is appended to the attributes of the current RelativeDN, a fresh attribute is
  started, and the DN itself is left as it is. So \<open>OU=Sales+CN=J. Smith\<close> parses to one
  RelativeDN with the two attributes (OU, Sales) and (CN, "J. Smith"), in this order.
\<close>

theorem plus_joins_attributes:
  assumes "iterations d k initial str = Some (st, CHR ''+'' # rest)"
    and "\<not> escaping st"
  shows "iterations d (Suc k) initial str =
      Some (st\<lparr>rdn := \<lparr>Attributes = Attributes (rdn st) @
          [(attribute st)\<lparr>Value :=
             take (length (buffer st) - unescapedTrailingSpaces st) (buffer st)\<rparr>]\<rparr>,
        buffer := [], attribute := \<lparr>Type = [], Value = []\<rparr>,
        unescapedTrailingSpaces := 0\<rparr>, rest)
    \<and> ParseDN d ''OU=Sales+CN=J. Smith'' =
      Ok \<lparr>RDNs = [\<lparr>Attributes =
        [\<lparr>Type = ''OU'', Value = ''Sales''\<rparr>, \<lparr>Type = ''CN'', Value = ''J. Smith''\<rparr>]\<rparr>]\<rparr>"
proof
  have "counted st"
    using assms(1) counted_initial by (rule iterations_counted)
  with assms(2) show "iterations d (Suc k) initial str =
      Some (st\<lparr>rdn := \<lparr>Attributes = Attributes (rdn st) @
          [(attribute st)\<lparr>Value :=
             take (length (buffer st) - unescapedTrailingSpaces st) (buffer st)\<rparr>]\<rparr>,
        buffer := [], attribute := \<lparr>Type = [], Value = []\<rparr>,
        unescapedTrailingSpaces := 0\<rparr>, rest)"
    by (intro iterations_Suc [OF assms(1)] step_plus)
next
  show "ParseDN d ''OU=Sales+CN=J. Smith'' =
      Ok \<lparr>RDNs = [\<lparr>Attributes =
        [\<lparr>Type = ''OU'', Value = ''Sales''\<rparr>, \<lparr>Type = ''CN'', Value = ''J. Smith''\<rparr>]\<rparr>]\<rparr>"
    by (simp add: unfold_ParseDN)
qed

theorem plus_joins_attributes_witness:
  "iterations rejecting 8 initial ''OU=Sales+CN=J. Smith''
     = Some (initial\<lparr>buffer := ''Sales'', attribute := \<lparr>Type = ''OU'', Value = []\<rparr>\<rparr>,
             CHR ''+'' # ''CN=J. Smith'')
   \<and> \<not> escaping (initial\<lparr>buffer := ''Sales'', attribute := \<lparr>Type = ''OU'', Value = []\<rparr>\<rparr>)
   \<and> iterations rejecting (Suc 8) initial ''OU=Sales+CN=J. Smith''
     = Some (initial\<lparr>rdn := \<lparr>Attributes = [\<lparr>Type = ''OU'', Value = ''Sales''\<rparr>]\<rparr>\<rparr>,
             ''CN=J. Smith'')
   \<and> ParseDN rejecting ''OU=Sales+CN=J. Smith'' =
      Ok \<lparr>RDNs = [\<lparr>Attributes =
        [\<lparr>Type = ''OU'', Value = ''Sales''\<rparr>, \<lparr>Type = ''CN'', Value = ''J. Smith''\<rparr>]\<rparr>]\<rparr>"
proof -
  let ?st = "initial\<lparr>buffer := ''Sales'', attribute := \<lparr>Type = ''OU'', Value = []\<rparr>\<rparr>"
  have h1: "iterations rejecting 8 initial ''OU=Sales+CN=J. Smith''
      = Some (?st, CHR ''+'' # ''CN=J. Smith'')"
    by (simp add: eval_nat_numeral unfold_ParseDN)
  have h2: "\<not> escaping ?st" by (simp add: initial_def)
  from plus_joins_attributes [OF h1 h2] h1 h2 show ?thesis
    by (simp add: initial_def)
qed

text \<open>C9: the empty input parses to a DN without RelativeDNs.\<close>

theorem empty_input:
  "ParseDN d [] = Ok \<lparr>RDNs = []\<rparr>"
  by (simp add: unfold_ParseDN)

text \<open>
  C10: an unescaped \<open>=\<close> that the scan meets (not followed by \<open>#\<close>) makes the
  buffer, without its unescaped trailing spaces, the Type of the pending attribute,
  whatever Type an earlier \<open>=\<close> had set, and the scan goes on with an empty buffer.
  So \<open>CN=a=b\<close> parses to the single attribute (a, b).
\<close>

theorem second_equals_replaces_type:
  assumes "iterations d k initial str = Some (st, CHR ''='' # rest)"
    and "\<not> escaping st"
    and "rest = [] \<or> hd rest \<noteq> CHR ''#''"
  shows "iterations d (Suc k) initial str =
      Some (st\<lparr>buffer := [], unescapedTrailingSpaces := 0,
        attribute := (attribute st)\<lparr>Type :=
          take (length (buffer st) - unescapedTrailingSpaces st) (buffer st)\<rparr>\<rparr>, rest)
    \<and> ParseDN d ''CN=a=b'' =
      Ok \<lparr>RDNs = [\<lparr>Attributes = [\<lparr>Type = ''a'', Value = ''b''\<rparr>]\<rparr>]\<rparr>"
proof
  have "counted st"
    using assms(1) counted_initial by (rule iterations_counted)
  then show "iterations d (Suc k) initial str =
      Some (st\<lparr>buffer := [], unescapedTrailingSpaces := 0,
        attribute := (attribute st)\<lparr>Type :=
          take (length (buffer st) - unescapedTrailingSpaces st) (buffer st)\<rparr>\<rparr>, rest)"
    using assms by (intro iterations_Suc [OF assms(1)] step_equals)
next
  show "ParseDN d ''CN=a=b'' =
      Ok \<lparr>RDNs = [\<lparr>Attributes = [\<lparr>Type = ''a'', Value = ''b''\<rparr>]\<rparr>]\<rparr>"
    by (simp add: unfold_ParseDN)
qed

theorem second_equals_replaces_type_witness:
  "iterations rejecting 4 initial ''CN=a=b''
     = Some (initial\<lparr>buffer := ''a'', attribute := \<lparr>Type = ''CN'', Value = []\<rparr>\<rparr>, ''=b'')
   \<and> \<not> escaping (initial\<lparr>buffer := ''a'', attribute := \<lparr>Type = ''CN'', Value = []\<rparr>\<rparr>)
   \<and> hd ''b'' \<noteq> CHR ''#''
   \<and> iterations rejecting (Suc 4) initial ''CN=a=b''
     = Some (initial\<lparr>attribute := \<lparr>Type = ''a'', Value = []\<rparr>\<rparr>, ''b'')
   \<and> ParseDN rejecting ''CN=a=b'' =
      Ok \<lparr>RDNs = [\<lparr>Attributes = [\<lparr>Type = ''a'', Value = ''b''\<rparr>]\<rparr>]\<rparr>"
proof -
  let ?st = "initial\<lparr>buffer := ''a'', attribute := \<lparr>Type = ''CN'', Value = []\<rparr>\<rparr>"
  have h1: "iterations rejecting 4 initial ''CN=a=b'' = Some (?st, CHR ''='' # ''b'')"
    by (simp add: eval_nat_numeral unfold_ParseDN)
  have h2: "\<not> escaping ?st" by (simp add: initial_def)
  have h3: "''b'' = [] \<or> hd ''b'' \<noteq> CHR ''#''" by simp
  have eq: "?st\<lparr>buffer := [], unescapedTrailingSpaces := 0,
        attribute := (attribute ?st)\<lparr>Type :=
          take (length (buffer ?st) - unescapedTrailingSpaces ?st) (buffer ?st)\<rparr>\<rparr>
       = initial\<lparr>attribute := \<lparr>Type = ''a'', Value = []\<rparr>\<rparr>"
    by (simp add: initial_def)
  from second_equals_replaces_type [OF h1 h2 h3] h1 h2 h3 show ?thesis
    unfolding eq by simp
qed

end
